theory Spec2Isabelle
  imports Main "HOL-Library.Word" "HOL-Library.Multiset"
begin

section \<open>The leftist-heap priority queue of priority\_queue.hpp\<close>

text \<open>
  The container is a pointer structure that is mutated in place, and most of what is
  said about it concerns what is left in memory when a user-supplied operation throws.
  The model therefore keeps an explicit store of nodes and passes the whole program
  state through every function:
  \<^item> a \<open>Node *\<close> is a 64-bit word, \<open>nullptr\<close> is \<open>0\<close>;
  \<^item> \<open>int dist\<close> is a 32-bit word read as two's complement (\<open>sint\<close>);
  \<^item> \<open>size_t queue_size\<close> is a 64-bit word, so \<open>++\<close>, \<open>--\<close> and \<open>+=\<close> wrap;
  \<^item> a \<open>throw\<close> is the outcome \<open>Raise\<close>, which carries the state at the moment the
    exception leaves the function;
  \<^item> dereferencing a null or released pointer, releasing a node twice and using an object
    that does not exist are undefined behaviour: the outcome \<open>Undefined\<close>;
  \<^item> the recursive functions take fuel; running out of fuel is \<open>None\<close>.
\<close>

type_synonym addr = "64 word"
type_synonym cid = nat

datatype exn = container_is_empty | bad_alloc | thrown nat

datatype ('v, 's) outcome = Return 'v 's | Raise exn 's | Undefined

record 'a Node =
  data :: 'a
  left :: addr
  right :: addr
  dist :: "32 word"

record 'c priority_queue =
  root :: addr
  queue_size :: "64 word"
  cmp :: 'c

text \<open>
  The template arguments. \<open>T\<close>'s copy constructor may throw (\<open>copy_throws\<close> gives the
  exception, \<open>None\<close> when the copy succeeds). \<open>Compare\<close> is a function object with a
  state of its own: \<open>cmp_init\<close> is the default-constructed object, \<open>cmp_call\<close> its call
  operator, which returns the object's new state and either the thrown exception or the
  boolean result.
\<close>

record ('a, 'c) tparams =
  copy_throws :: "'a \<Rightarrow> nat option"
  cmp_init :: 'c
  cmp_call :: "'c \<Rightarrow> 'a \<Rightarrow> 'a \<Rightarrow> 'c \<times> (nat + bool)"

text \<open>
  The program state: the live nodes, the addresses the allocator will hand out next (the
  free list; \<open>operator new\<close> throws \<open>bad_alloc\<close> when it is empty), the
  \<open>priority_queue\<close> objects by identity, and a log of the comparator invocations (ghost
  state, written only by \<open>invoke_cmp\<close>).
\<close>

record ('a, 'c) world =
  cells :: "addr \<Rightarrow> 'a Node option"
  avail :: "addr list"
  pqs :: "cid \<Rightarrow> 'c priority_queue option"
  calls :: "('a \<times> 'a) list"

subsection \<open>Memory primitives\<close>

definition deref :: "('a, 'c) world \<Rightarrow> addr \<Rightarrow> 'a Node option" where
  "deref w p = (if p = 0 then None else cells w p)"

definition store :: "('a, 'c) world \<Rightarrow> addr \<Rightarrow> 'a Node \<Rightarrow> ('a, 'c) world" where
  "store w p n = w\<lparr>cells := (cells w)(p \<mapsto> n)\<rparr>"

text \<open>\<open>new Node(value)\<close>: allocate, then copy-construct the element; when the element's
  copy constructor throws, the memory goes back to the allocator.\<close>

definition new_Node ::
  "('a, 'c) tparams \<Rightarrow> ('a, 'c) world \<Rightarrow> 'a \<Rightarrow> (addr, ('a, 'c) world) outcome" where
  "new_Node T w v =
     (case avail w of
        [] \<Rightarrow> Raise bad_alloc w
      | a # rest \<Rightarrow>
          if a = 0 \<or> cells w a \<noteq> None then Undefined
          else (case copy_throws T v of
                  Some x \<Rightarrow> Raise (thrown x) w
                | None \<Rightarrow>
                    Return a (w\<lparr>cells := (cells w)(a \<mapsto> \<lparr>data = v, left = 0, right = 0, dist = 0\<rparr>),
                                avail := rest\<rparr>)))"

text \<open>\<open>delete p\<close>: nothing for a null pointer, undefined for a pointer that is not live.\<close>

definition delete_Node :: "('a, 'c) world \<Rightarrow> addr \<Rightarrow> ('a, 'c) world option" where
  "delete_Node w p =
     (if p = 0 then Some w
      else (case cells w p of
              None \<Rightarrow> None
            | Some n \<Rightarrow> Some (w\<lparr>cells := (cells w)(p := None), avail := p # avail w\<rparr>)))"

subsection \<open>Tree primitives\<close>

definition getDist :: "('a, 'c) world \<Rightarrow> addr \<Rightarrow> 32 word option" where
  "getDist w node = (if node = 0 then Some (- 1) else map_option dist (cells w node))"

text \<open>\<open>cmp(x, y)\<close> inside a member function of the object \<open>this\<close>.\<close>

definition invoke_cmp ::
  "('a, 'c) tparams \<Rightarrow> ('a, 'c) world \<Rightarrow> cid \<Rightarrow> 'a \<Rightarrow> 'a \<Rightarrow> (bool, ('a, 'c) world) outcome" where
  "invoke_cmp T w this x y =
     (case pqs w this of
        None \<Rightarrow> Undefined
      | Some q \<Rightarrow>
          (case cmp_call T (cmp q) x y of
             (c', Inl ex) \<Rightarrow>
               Raise (thrown ex) (w\<lparr>pqs := (pqs w)(this \<mapsto> q\<lparr>cmp := c'\<rparr>), calls := calls w @ [(x, y)]\<rparr>)
           | (c', Inr res) \<Rightarrow>
               Return res (w\<lparr>pqs := (pqs w)(this \<mapsto> q\<lparr>cmp := c'\<rparr>), calls := calls w @ [(x, y)]\<rparr>)))"

text \<open>
  The tail of both branches of \<open>mergeNodes\<close>, for the winner \<open>a\<close> and the merged subtree
  \<open>m\<close>: \<open>a->right = m\<close>, the swap of the children when
  \<open>getDist(a->left) < getDist(a->right)\<close>, and \<open>a->dist = getDist(a->right) + 1\<close>
  (signed overflow of that addition is undefined).
\<close>

definition relink :: "('a, 'c) world \<Rightarrow> addr \<Rightarrow> addr \<Rightarrow> (addr, ('a, 'c) world) outcome" where
  "relink w a m =
     (case deref w a of
        None \<Rightarrow> Undefined
      | Some n0 \<Rightarrow>
          (let n1 = n0\<lparr>right := m\<rparr>; w1 = store w a n1 in
           (case (getDist w1 (left n1), getDist w1 (right n1)) of
              (Some dl, Some dr) \<Rightarrow>
                (let n2 = (if sint dl < sint dr then n1\<lparr>left := right n1, right := left n1\<rparr> else n1);
                     w2 = store w1 a n2 in
                 (case getDist w2 (right n2) of
                    Some d \<Rightarrow>
                      if d = 0x7FFFFFFF then Undefined
                      else Return a (store w2 a (n2\<lparr>dist := d + 1\<rparr>))
                  | None \<Rightarrow> Undefined))
            | _ \<Rightarrow> Undefined)))"

fun mergeNodes ::
  "nat \<Rightarrow> ('a, 'c) tparams \<Rightarrow> ('a, 'c) world \<Rightarrow> cid \<Rightarrow> addr \<Rightarrow> addr
     \<Rightarrow> (addr, ('a, 'c) world) outcome option" where
  "mergeNodes 0 T w this a b = None"
| "mergeNodes (Suc k) T w this a b =
     (if a = 0 then Some (Return b w)
      else if b = 0 then Some (Return a w)
      else (case (deref w a, deref w b) of
              (Some na, Some nb) \<Rightarrow>
                (case invoke_cmp T w this (data na) (data nb) of
                   Undefined \<Rightarrow> Some Undefined
                 | Raise ex w1 \<Rightarrow> Some (Raise ex w1)
                 | Return comparison_result w1 \<Rightarrow>
                     if \<not> comparison_result then
                       (case deref w1 a of
                          None \<Rightarrow> Some Undefined
                        | Some na1 \<Rightarrow>
                            (case mergeNodes k T w1 this (right na1) b of
                               Some (Return m w2) \<Rightarrow> Some (relink w2 a m)
                             | other \<Rightarrow> other))
                     else
                       (case deref w1 b of
                          None \<Rightarrow> Some Undefined
                        | Some nb1 \<Rightarrow>
                            (case mergeNodes k T w1 this a (right nb1) of
                               Some (Return m w2) \<Rightarrow> Some (relink w2 b m)
                             | other \<Rightarrow> other)))
            | _ \<Rightarrow> Some Undefined))"



subsection \<open>The public member functions\<close>

text \<open>Each takes the identity \<open>this\<close> of the object it is called on; \<open>k\<close> is the fuel
  handed to the recursive tree primitives.\<close>

definition ctor :: "('a, 'c) tparams \<Rightarrow> ('a, 'c) world \<Rightarrow> cid \<Rightarrow> (unit, ('a, 'c) world) outcome" where
  "ctor T w this =
     (case pqs w this of
        Some q \<Rightarrow> Undefined
      | None \<Rightarrow> Return () (w\<lparr>pqs := (pqs w)(this \<mapsto> \<lparr>root = 0, queue_size = 0, cmp = cmp_init T\<rparr>)\<rparr>))"




definition size_q :: "('a, 'c) world \<Rightarrow> cid \<Rightarrow> (64 word, ('a, 'c) world) outcome" where
  "size_q w this = (case pqs w this of None \<Rightarrow> Undefined | Some q \<Rightarrow> Return (queue_size q) w)"

definition empty_q :: "('a, 'c) world \<Rightarrow> cid \<Rightarrow> (bool, ('a, 'c) world) outcome" where
  "empty_q w this = (case pqs w this of None \<Rightarrow> Undefined | Some q \<Rightarrow> Return (queue_size q = 0) w)"

definition top :: "('a, 'c) world \<Rightarrow> cid \<Rightarrow> ('a, ('a, 'c) world) outcome" where
  "top w this =
     (case pqs w this of
        None \<Rightarrow> Undefined
      | Some q \<Rightarrow>
          if queue_size q = 0 then Raise container_is_empty w
          else (case deref w (root q) of
                  None \<Rightarrow> Undefined
                | Some n \<Rightarrow> Return (data n) w))"

text \<open>\<open>push\<close>: the node is allocated outside the \<open>try\<close> block; the handler releases it and
  rethrows.\<close>

definition push ::
  "nat \<Rightarrow> ('a, 'c) tparams \<Rightarrow> ('a, 'c) world \<Rightarrow> cid \<Rightarrow> 'a \<Rightarrow> (unit, ('a, 'c) world) outcome option" where
  "push k T w this e =
     (case pqs w this of
        None \<Rightarrow> Some Undefined
      | Some q \<Rightarrow>
          (case new_Node T w e of
             Undefined \<Rightarrow> Some Undefined
           | Raise ex w1 \<Rightarrow> Some (Raise ex w1)
           | Return newNode w1 \<Rightarrow>
               (case pqs w1 this of
                  None \<Rightarrow> Some Undefined
                | Some q1 \<Rightarrow>
                    (case mergeNodes k T w1 this (root q1) newNode of
                       None \<Rightarrow> None
                     | Some Undefined \<Rightarrow> Some Undefined
                     | Some (Return r w2) \<Rightarrow>
                         (case pqs w2 this of
                            None \<Rightarrow> Some Undefined
                          | Some q2 \<Rightarrow>
                              Some (Return ()
                                (w2\<lparr>pqs := (pqs w2)(this \<mapsto> q2\<lparr>root := r, queue_size := queue_size q2 + 1\<rparr>)\<rparr>)))
                     | Some (Raise ex w2) \<Rightarrow>
                         (case delete_Node w2 newNode of
                            None \<Rightarrow> Some Undefined
                          | Some w3 \<Rightarrow> Some (Raise ex w3))))))"

text \<open>\<open>pop\<close>: the handler assigns the saved pointer back to \<open>root\<close> and rethrows.\<close>

definition pop ::
  "nat \<Rightarrow> ('a, 'c) tparams \<Rightarrow> ('a, 'c) world \<Rightarrow> cid \<Rightarrow> (unit, ('a, 'c) world) outcome option" where
  "pop k T w this =
     (case pqs w this of
        None \<Rightarrow> Some Undefined
      | Some q \<Rightarrow>
          if queue_size q = 0 then Some (Raise container_is_empty w)
          else (case deref w (root q) of
                  None \<Rightarrow> Some Undefined
                | Some n \<Rightarrow>
                    (case mergeNodes k T w this (left n) (right n) of
                       None \<Rightarrow> None
                     | Some Undefined \<Rightarrow> Some Undefined
                     | Some (Return r w1) \<Rightarrow>
                         (case pqs w1 this of
                            None \<Rightarrow> Some Undefined
                          | Some q1 \<Rightarrow>
                              (case delete_Node
                                      (w1\<lparr>pqs := (pqs w1)(this \<mapsto> q1\<lparr>root := r, queue_size := queue_size q1 - 1\<rparr>)\<rparr>)
                                      (root q) of
                                 None \<Rightarrow> Some Undefined
                               | Some w2 \<Rightarrow> Some (Return () w2)))
                     | Some (Raise ex w1) \<Rightarrow>
                         (case pqs w1 this of
                            None \<Rightarrow> Some Undefined
                          | Some q1 \<Rightarrow>
                              Some (Raise ex (w1\<lparr>pqs := (pqs w1)(this \<mapsto> q1\<lparr>root := root q\<rparr>)\<rparr>))))))"

text \<open>\<open>merge\<close>: the four saved fields are written back by the handler.\<close>

definition merge ::
  "nat \<Rightarrow> ('a, 'c) tparams \<Rightarrow> ('a, 'c) world \<Rightarrow> cid \<Rightarrow> cid \<Rightarrow> (unit, ('a, 'c) world) outcome option" where
  "merge k T w this other =
     (if this = other then Some (Return () w)
      else (case (pqs w this, pqs w other) of
              (Some q, Some oq) \<Rightarrow>
                (case mergeNodes k T w this (root q) (root oq) of
                   None \<Rightarrow> None
                 | Some Undefined \<Rightarrow> Some Undefined
                 | Some (Return r w1) \<Rightarrow>
                     (case (pqs w1 this, pqs w1 other) of
                        (Some q1, Some o1) \<Rightarrow>
                          Some (Return ()
                            (w1\<lparr>pqs := (pqs w1)
                                  (this \<mapsto> q1\<lparr>root := r, queue_size := queue_size q1 + queue_size o1\<rparr>,
                                   other \<mapsto> o1\<lparr>root := 0, queue_size := 0\<rparr>)\<rparr>))
                      | _ \<Rightarrow> Some Undefined)
                 | Some (Raise ex w1) \<Rightarrow>
                     (case (pqs w1 this, pqs w1 other) of
                        (Some q1, Some o1) \<Rightarrow>
                          Some (Raise ex
                            (w1\<lparr>pqs := (pqs w1)
                                  (this \<mapsto> q1\<lparr>root := root q, queue_size := queue_size q\<rparr>,
                                   other \<mapsto> o1\<lparr>root := root oq, queue_size := queue_size oq\<rparr>)\<rparr>))
                      | _ \<Rightarrow> Some Undefined))
            | _ \<Rightarrow> Some Undefined))"

subsection \<open>Client code\<close>

text \<open>\<open>std::less<T>\<close> on an element type whose copies never throw; the state with no
  object and no live node; the loop that reads \<open>top\<close> and calls \<open>pop\<close> until \<open>empty\<close>;
  a client that performs a list of \<open>push\<close> and \<open>pop\<close> calls on one object and catches
  what they throw.\<close>

definition less_ops :: "('a::linorder, unit) tparams" where
  "less_ops = \<lparr>copy_throws = (\<lambda>_. None), cmp_init = (), cmp_call = (\<lambda>c x y. (c, Inr (x < y)))\<rparr>"

text \<open>\<open>std::less<int>\<close> wrapped in a function object that counts its invocations and
  throws on the \<open>n\<close>-th one.\<close>

definition counting_ops :: "nat \<Rightarrow> (int, nat) tparams" where
  "counting_ops n = \<lparr>copy_throws = (\<lambda>_. None), cmp_init = 0,
                     cmp_call = (\<lambda>c x y. (Suc c, if Suc c = n then Inl 7 else Inr (x < y)))\<rparr>"

definition world0 :: "addr list \<Rightarrow> ('a, 'c) world" where
  "world0 free = \<lparr>cells = (\<lambda>_. None), avail = free, pqs = (\<lambda>_. None), calls = []\<rparr>"

fun drain ::
  "nat \<Rightarrow> nat \<Rightarrow> ('a, 'c) tparams \<Rightarrow> ('a, 'c) world \<Rightarrow> cid \<Rightarrow> ('a list, ('a, 'c) world) outcome option" where
  "drain 0 k T w this = None"
| "drain (Suc n) k T w this =
     (case empty_q w this of
        Undefined \<Rightarrow> Some Undefined
      | Raise ex w1 \<Rightarrow> Some (Raise ex w1)
      | Return e w1 \<Rightarrow>
          if e then Some (Return [] w1)
          else (case top w1 this of
                  Undefined \<Rightarrow> Some Undefined
                | Raise ex w2 \<Rightarrow> Some (Raise ex w2)
                | Return x w2 \<Rightarrow>
                    (case pop k T w2 this of
                       None \<Rightarrow> None
                     | Some Undefined \<Rightarrow> Some Undefined
                     | Some (Raise ex w3) \<Rightarrow> Some (Raise ex w3)
                     | Some (Return u w3) \<Rightarrow>
                         (case drain n k T w3 this of
                            Some (Return xs w4) \<Rightarrow> Some (Return (x # xs) w4)
                          | other \<Rightarrow> other))))"

datatype 'a op = Push 'a | Pop

fun run ::
  "nat \<Rightarrow> ('a, 'c) tparams \<Rightarrow> ('a, 'c) world \<Rightarrow> cid \<Rightarrow> 'a op list \<Rightarrow> (unit, ('a, 'c) world) outcome option" where
  "run k T w this [] = Some (Return () w)"
| "run k T w this (Push e # ops) =
     (case push k T w this e of
        None \<Rightarrow> None
      | Some Undefined \<Rightarrow> Some Undefined
      | Some (Raise ex w1) \<Rightarrow> run k T w1 this ops
      | Some (Return u w1) \<Rightarrow> run k T w1 this ops)"
| "run k T w this (Pop # ops) =
     (case pop k T w this of
        None \<Rightarrow> None
      | Some Undefined \<Rightarrow> Some Undefined
      | Some (Raise ex w1) \<Rightarrow> run k T w1 this ops
      | Some (Return u w1) \<Rightarrow> run k T w1 this ops)"





section \<open>The tree a pointer stands for\<close>

text \<open>A term that records, for a tree in the store, the address, the element and the
  \<open>dist\<close> field of every node. \<open>repr h t\<close> says that the store \<open>h\<close> holds exactly
  this tree at the address \<open>ptr t\<close>. \<open>tnode\<close> and \<open>tmerge\<close> replay \<open>relink\<close> and
  \<open>mergeNodes\<close> on such terms; \<open>mergeNodes_sim\<close> below proves that the replay is exact.\<close>

datatype 'a tree = Leaf | Br addr "'a tree" 'a "32 word" "'a tree"

fun ptr :: "'a tree \<Rightarrow> addr" where
  "ptr Leaf = 0"
| "ptr (Br a l x d r) = a"

fun addrs :: "'a tree \<Rightarrow> addr list" where
  "addrs Leaf = []"
| "addrs (Br a l x d r) = a # addrs l @ addrs r"

fun gd :: "'a tree \<Rightarrow> 32 word" where
  "gd Leaf = - 1"
| "gd (Br a l x d r) = d"

fun repr :: "(addr \<Rightarrow> 'a Node option) \<Rightarrow> 'a tree \<Rightarrow> bool" where
  "repr h Leaf = True"
| "repr h (Br a l x d r) =
     (a \<noteq> 0 \<and> h a = Some \<lparr>data = x, left = ptr l, right = ptr r, dist = d\<rparr> \<and> repr h l \<and> repr h r)"

definition tnode :: "addr \<Rightarrow> 'a tree \<Rightarrow> 'a \<Rightarrow> 'a tree \<Rightarrow> 'a tree option" where
  "tnode a l x m =
     (if sint (gd l) < sint (gd m)
      then (if gd l = 0x7FFFFFFF then None else Some (Br a m x (gd l + 1) l))
      else (if gd m = 0x7FFFFFFF then None else Some (Br a l x (gd m + 1) m)))"

fun tmerge :: "('a, 'c) tparams \<Rightarrow> 'c \<Rightarrow> 'a tree \<Rightarrow> 'a tree \<Rightarrow> ('a tree, 'c) outcome" where
  "tmerge T c Leaf t = Return t c"
| "tmerge T c (Br a l x d r) Leaf = Return (Br a l x d r) c"
| "tmerge T c (Br a l x d r) (Br b l' y d' r') =
     (case cmp_call T c x y of
        (c1, Inl ex) \<Rightarrow> Raise (thrown ex) c1
      | (c1, Inr res) \<Rightarrow>
          if \<not> res then
            (case tmerge T c1 r (Br b l' y d' r') of
               Return m c2 \<Rightarrow> (case tnode a l x m of None \<Rightarrow> Undefined | Some t \<Rightarrow> Return t c2)
             | other \<Rightarrow> other)
          else
            (case tmerge T c1 (Br a l x d r) r' of
               Return m c2 \<Rightarrow> (case tnode b l' y m of None \<Rightarrow> Undefined | Some t \<Rightarrow> Return t c2)
             | other \<Rightarrow> other))"

definition cmp_changed :: "('a, 'c) world \<Rightarrow> ('a, 'c) world \<Rightarrow> cid \<Rightarrow> bool" where
  "cmp_changed w w' this \<longleftrightarrow>
     (\<forall>c. c \<noteq> this \<longrightarrow> pqs w' c = pqs w c) \<and>
     (case pqs w this of
        None \<Rightarrow> pqs w' this = None
      | Some q \<Rightarrow> (\<exists>q'. pqs w' this = Some q' \<and> root q' = root q \<and> queue_size q' = queue_size q))"



subsection \<open>Invariants of a tree\<close>

text \<open>\<open>rk\<close> is the length of the right spine, so a node's \<open>dist\<close> must be the \<open>rk\<close> of
  its right child and \<open>getDist\<close> of a subtree is its \<open>rk\<close> minus one. \<open>heap_ord\<close> is the
  max-heap order for \<open>std::less\<close>.\<close>

fun rk :: "'a tree \<Rightarrow> nat" where
  "rk Leaf = 0"
| "rk (Br a l x d r) = Suc (rk r)"


fun elems :: "'a tree \<Rightarrow> 'a multiset" where
  "elems Leaf = {#}"
| "elems (Br a l x d r) = {#x#} + elems l + elems r"

fun heap_ord :: "'a::linorder tree \<Rightarrow> bool" where
  "heap_ord Leaf = True"
| "heap_ord (Br a l x d r) =
     ((\<forall>y \<in># elems l + elems r. y \<le> x) \<and> heap_ord l \<and> heap_ord r)"

subsection \<open>Invariants of the program state\<close>


definition owns :: "('a, 'c) world \<Rightarrow> 'c priority_queue \<Rightarrow> 'a tree \<Rightarrow> bool" where
  "owns w q t \<longleftrightarrow>
     root q = ptr t \<and> repr (cells w) t \<and> distinct (addrs t) \<and>
     queue_size q = of_nat (length (addrs t))"


subsection \<open>What a copy and a release do to the store\<close>


fun strip :: "'a tree \<Rightarrow> 'a tree" where
  "strip Leaf = Leaf"
| "strip (Br a l x d r) = Br 0 (strip l) x d (strip r)"


subsection \<open>The leftist invariants, on the store\<close>


inductive_set reach :: "(addr \<Rightarrow> 'a Node option) \<Rightarrow> addr \<Rightarrow> addr set"
  for h :: "addr \<Rightarrow> 'a Node option" and p :: addr where
  start: "p \<noteq> 0 \<Longrightarrow> p \<in> reach h p"
| go_left: "q \<in> reach h p \<Longrightarrow> h q = Some n \<Longrightarrow> left n \<noteq> 0 \<Longrightarrow> left n \<in> reach h p"
| go_right: "q \<in> reach h p \<Longrightarrow> h q = Some n \<Longrightarrow> right n \<noteq> 0 \<Longrightarrow> right n \<in> reach h p"


section \<open>Frame properties and the simulation of mergeNodes\<close>

lemma cmp_changed_refl: "pqs w' = pqs w \<Longrightarrow> cmp_changed w w' this"
  unfolding cmp_changed_def by (auto split: option.splits)

lemma cmp_changed_trans:
  "cmp_changed w w1 this \<Longrightarrow> cmp_changed w1 w2 this \<Longrightarrow> cmp_changed w w2 this"
  unfolding cmp_changed_def by (auto split: option.splits)

lemma invoke_cmp_Return:
  "invoke_cmp T w this x y = Return r w1 \<Longrightarrow>
     cells w1 = cells w \<and> avail w1 = avail w \<and> cmp_changed w w1 this \<and> calls w1 = calls w @ [(x, y)]"
  unfolding invoke_cmp_def cmp_changed_def
  by (auto split: option.splits prod.splits sum.splits)

lemma invoke_cmp_Raise:
  "invoke_cmp T w this x y = Raise ex w1 \<Longrightarrow>
     cells w1 = cells w \<and> avail w1 = avail w \<and> cmp_changed w w1 this \<and> calls w1 = calls w @ [(x, y)]
     \<and> (\<exists>n. ex = thrown n)"
  unfolding invoke_cmp_def cmp_changed_def
  by (auto split: option.splits prod.splits sum.splits)


lemma relink_not_Raise: "relink w a m \<noteq> Raise ex w'"
  unfolding relink_def deref_def store_def Let_def
  by (auto split: option.splits if_splits)

lemma mergeNodes_Raise:
  "mergeNodes k T w this a b = Some (Raise ex w') \<Longrightarrow>
     cells w' = cells w \<and> avail w' = avail w \<and> cmp_changed w w' this \<and> (\<exists>n. ex = thrown n)"
proof (induction k arbitrary: w a b)
  case 0
  then show ?case by simp
next
  case (Suc k)
  show ?case using Suc.prems
    apply (simp split: if_splits option.splits outcome.splits)
    apply (auto dest!: invoke_cmp_Return invoke_cmp_Raise Suc.IH simp: relink_not_Raise deref_def cmp_changed_refl intro: cmp_changed_trans)
    done
qed



lemma repr_ptr_notin: "repr h t \<Longrightarrow> 0 \<notin> set (addrs t)"
  by (induction t) auto

lemma ptr_in_addrs: "t \<noteq> Leaf \<Longrightarrow> ptr t \<in> set (addrs t)"
  by (cases t) auto


lemma repr_deref:
  "repr (cells w) (Br a l x d r) \<Longrightarrow> deref w a = Some \<lparr>data = x, left = ptr l, right = ptr r, dist = d\<rparr>"
  by (simp add: deref_def)



lemma deref_store: "a \<noteq> 0 \<Longrightarrow> deref (store w a n) a = Some n"
  by (simp add: deref_def store_def)









lemma mergeNodes_numeral:
  "mergeNodes (numeral n) T w this a b = mergeNodes (Suc (pred_numeral n)) T w this a b"
  by (simp add: numeral_eq_Suc)

lemma drain_numeral:
  "drain (numeral n) k T w this = drain (Suc (pred_numeral n)) k T w this"
  by (simp add: numeral_eq_Suc)


lemma new_Node_Return:
  "new_Node T w e = Return a w1 \<Longrightarrow>
     a \<noteq> 0 \<and> cells w a = None \<and> avail w = a # avail w1 \<and> pqs w1 = pqs w \<and> calls w1 = calls w \<and>
     copy_throws T e = None \<and>
     cells w1 = (cells w)(a \<mapsto> \<lparr>data = e, left = 0, right = 0, dist = 0\<rparr>)"
  by (auto simp: new_Node_def split: list.splits if_splits option.splits)

lemma new_Node_Raise: "new_Node T w e = Raise ex w1 \<Longrightarrow> w1 = w \<and> ex \<noteq> container_is_empty"
  by (auto simp: new_Node_def split: list.splits if_splits option.splits)


section \<open>What mergeNodes keeps\<close>

lemma addr_list_bound:
  fixes xs :: "addr list"
  assumes "distinct xs" "0 \<notin> set xs"
  shows "length xs < 2 ^ 64"
proof -
  have "length xs = card (set xs)" using assms by (simp add: distinct_card)
  also have "set xs \<subseteq> UNIV - {0}" using assms by auto
  then have "card (set xs) \<le> card (UNIV - {0 :: addr})" by (intro card_mono) auto
  also have "\<dots> = 2 ^ 64 - 1" by (simp add: card_Diff_singleton card_word)
  finally show ?thesis by simp
qed











lemma tnode_elems: "tnode a l x m = Some t \<Longrightarrow> elems t = {#x#} + elems l + elems m"
  by (auto simp: tnode_def split: if_splits)

lemma tnode_heap_ord:
  "tnode a l x m = Some t \<Longrightarrow>
   heap_ord t = ((\<forall>y \<in># elems l + elems m. y \<le> x) \<and> heap_ord l \<and> heap_ord m)"
  by (auto simp: tnode_def split: if_splits)

lemma tmerge_Br_Return:
  assumes "tmerge T c (Br a l x d r) (Br b l' y d' r') = Return t c'"
  shows "(\<exists>c1 m. cmp_call T c x y = (c1, Inr False) \<and>
            tmerge T c1 r (Br b l' y d' r') = Return m c' \<and> tnode a l x m = Some t) \<or>
         (\<exists>c1 m. cmp_call T c x y = (c1, Inr True) \<and>
            tmerge T c1 (Br a l x d r) r' = Return m c' \<and> tnode b l' y m = Some t)"
  using assms
  by (auto split: prod.splits sum.splits if_splits outcome.splits option.splits)

lemma tmerge_elems:
  "tmerge T c ta tb = Return t c' \<Longrightarrow> elems t = elems ta + elems tb"
proof (induction T c ta tb arbitrary: t c' rule: tmerge.induct)
  case (3 T c a l x d r b l' y d' r')
  from tmerge_Br_Return[OF "3.prems"] show ?case
  proof (elim disjE exE conjE)
    fix c1 m
    assume h: "cmp_call T c x y = (c1, Inr False)"
      "tmerge T c1 r (Br b l' y d' r') = Return m c'" "tnode a l x m = Some t"
    from "3.IH"(1)[OF h(1)[symmetric] refl _ h(2)]
    show ?thesis using tnode_elems[OF h(3)] by simp
  next
    fix c1 m
    assume h: "cmp_call T c x y = (c1, Inr True)"
      "tmerge T c1 (Br a l x d r) r' = Return m c'" "tnode b l' y m = Some t"
    from "3.IH"(2)[OF h(1)[symmetric] refl _ h(2)]
    show ?thesis using tnode_elems[OF h(3)] by simp
  qed
qed simp_all

lemma tmerge_heap_ord:
  "heap_ord ta \<Longrightarrow> heap_ord tb \<Longrightarrow> tmerge less_ops c ta tb = Return t c' \<Longrightarrow> heap_ord t"
proof (induction "less_ops :: ('a::linorder, unit) tparams" c ta tb arbitrary: t c' rule: tmerge.induct)
  case (3 c a l x d r b l' y d' r')
  let ?ta = "Br a l x d r" and ?tb = "Br b l' y d' r'"
  from tmerge_Br_Return[OF "3.prems"(3)] show ?case
  proof (elim disjE exE conjE)
    fix c1 m
    assume h: "cmp_call less_ops c x y = (c1, Inr False)"
      "tmerge less_ops c1 r ?tb = Return m c'" "tnode a l x m = Some t"
    from h(1) have xy: "y \<le> x" by (auto simp: less_ops_def)
    have hm: "heap_ord m"
      using "3.hyps"(1)[OF h(1)[symmetric] refl _ _ _ h(2)] "3.prems" by simp
    have em: "elems m = elems r + elems ?tb" by (rule tmerge_elems[OF h(2)])
    have ot: "\<forall>z \<in># elems ?tb. z \<le> x"
      using "3.prems"(2) xy by (auto intro: order.trans)
    show ?thesis
      unfolding tnode_heap_ord[OF h(3)] em
      using "3.prems"(1,2) hm ot by auto
  next
    fix c1 m
    assume h: "cmp_call less_ops c x y = (c1, Inr True)"
      "tmerge less_ops c1 ?ta r' = Return m c'" "tnode b l' y m = Some t"
    from h(1) have xy: "x < y" by (auto simp: less_ops_def)
    have hm: "heap_ord m"
      using "3.hyps"(2)[OF h(1)[symmetric] refl _ _ _ h(2)] "3.prems" by simp
    have em: "elems m = elems ?ta + elems r'" by (rule tmerge_elems[OF h(2)])
    have ot: "\<forall>z \<in># elems ?ta. z \<le> y"
      using "3.prems"(1) xy by (auto intro: order.trans less_imp_le)
    show ?thesis
      unfolding tnode_heap_ord[OF h(3)] em
      using "3.prems"(1,2) hm ot by auto
  qed
qed auto

section \<open>The member functions keep the state well formed\<close>










lemma owns_size_bound: "owns w q t \<Longrightarrow> length (addrs t) < 2 ^ 64"
  unfolding owns_def by (intro addr_list_bound) (auto dest: repr_ptr_notin)



lemma of_nat_64_eq_0: "n < 2 ^ 64 \<Longrightarrow> (of_nat n :: 64 word) = 0 \<longleftrightarrow> n = 0"
  by (auto simp: word_of_nat_eq_0_iff dest: dvd_imp_le)

lemma owns_empty_iff: "owns w q t \<Longrightarrow> queue_size q = 0 \<longleftrightarrow> t = Leaf"
proof -
  assume o: "owns w q t"
  have "(of_nat (length (addrs t)) :: 64 word) = 0 \<longleftrightarrow> length (addrs t) = 0"
    by (rule of_nat_64_eq_0[OF owns_size_bound[OF o]])
  then show ?thesis using o by (cases t) (auto simp: owns_def)
qed




lemma owns_top:
  "owns w q (Br a l x d r) \<Longrightarrow> pqs w this = Some q \<Longrightarrow> top w this = Return x w"
  using owns_empty_iff[of w q "Br a l x d r"]
  by (simp add: top_def owns_def deref_def)




section \<open>copyTree and deleteTree\<close>













lemma strip_rk [simp]: "rk (strip t) = rk t"
  by (induction t) auto


lemma strip_elems [simp]: "elems (strip t) = elems t"
  by (induction t) auto

lemma strip_heap_ord [simp]: "heap_ord (strip t) = heap_ord t"
  by (induction t) auto



lemma strip_eq_elems: "strip t' = strip t \<Longrightarrow> elems t' = elems t"
  by (metis strip_elems)

lemma strip_eq_heap_ord: "strip t' = strip t \<Longrightarrow> heap_ord t' = heap_ord t"
  by (metis strip_heap_ord)












section \<open>More fuel changes nothing\<close>


















section \<open>The invariants after every successful call\<close>






















section \<open>The claims\<close>

text \<open>
  C9. Merging a container with itself is a no-op: \<open>merge\<close> returns at once with the whole
  program state as it was, so the root, the size and the elements of the container are
  unchanged. In the scenario, a container built by pushing 1, 2, 3 and merged with itself
  still has size 3, and reading \<open>top\<close> and popping until it is empty gives 3, 2, 1.
\<close>

theorem merge_self_is_noop:
  "merge k T w x x = Some (Return () w) \<and>
   (case ctor less_ops (world0 [1, 2, 3]) 0 of
      Return u w0 \<Rightarrow>
        (case run 10 less_ops w0 0 [Push 1, Push 2, Push (3::int)] of
           Some (Return u' w1) \<Rightarrow>
             (case merge 10 less_ops w1 0 0 of
                Some (Return u'' w2) \<Rightarrow>
                  (case size_q w2 0 of Return n w3 \<Rightarrow> n = 3 | _ \<Rightarrow> False) \<and>
                  (case drain 10 10 less_ops w2 0 of
                     Some (Return xs w3) \<Rightarrow> xs = [3, 2, 1]
                   | _ \<Rightarrow> False)
              | _ \<Rightarrow> False)
         | _ \<Rightarrow> False)
    | _ \<Rightarrow> False)"
proof
  show "merge k T w x x = Some (Return () w)" by (simp add: merge_def)
next
  show "(case ctor less_ops (world0 [1, 2, 3]) 0 of
      Return u w0 \<Rightarrow>
        (case run 10 less_ops w0 0 [Push 1, Push 2, Push (3::int)] of
           Some (Return u' w1) \<Rightarrow>
             (case merge 10 less_ops w1 0 0 of
                Some (Return u'' w2) \<Rightarrow>
                  (case size_q w2 0 of Return n w3 \<Rightarrow> n = 3 | _ \<Rightarrow> False) \<and>
                  (case drain 10 10 less_ops w2 0 of
                     Some (Return xs w3) \<Rightarrow> xs = [3, 2, 1]
                   | _ \<Rightarrow> False)
              | _ \<Rightarrow> False)
         | _ \<Rightarrow> False)
    | _ \<Rightarrow> False)"
    by code_simp
qed

text \<open>
  C4. When \<open>push\<close> throws (the comparator threw during the merge, or the allocation
  failed), the store and the allocator's free list are as before the call, so the node
  allocated for the element has been released; every other object is untouched, and the
  \<open>root\<close> and \<open>queue_size\<close> of the object are as before the call.
\<close>

theorem push_failure_restores:
  assumes "push k T w this e = Some (Raise ex w')"
  shows "cells w' = cells w \<and> avail w' = avail w \<and>
         (\<forall>a w1. new_Node T w e = Return a w1 \<longrightarrow> cells w' a = None \<and> a \<in> set (avail w')) \<and>
         (\<forall>c. c \<noteq> this \<longrightarrow> pqs w' c = pqs w c) \<and>
         (\<exists>q q'. pqs w this = Some q \<and> pqs w' this = Some q' \<and>
                  root q' = root q \<and> queue_size q' = queue_size q)"
proof -
  from assms obtain q where q: "pqs w this = Some q"
    by (auto simp: push_def split: option.splits)
  show ?thesis
  proof (cases "new_Node T w e")
    case (Return a w1)
    note n = new_Node_Return[OF Return]
    from n q have q1: "pqs w1 this = Some q" by simp
    from assms q Return q1 obtain w2 where
      m: "mergeNodes k T w1 this (root q) a = Some (Raise ex w2)" and
      d: "delete_Node w2 a = Some w'"
      by (auto simp: push_def split: option.splits outcome.splits)
    note r = mergeNodes_Raise[OF m]
    from r n have c2: "cells w2 a \<noteq> None" by simp
    from d c2 n have w': "w' = w2\<lparr>cells := (cells w2)(a := None), avail := a # avail w2\<rparr>"
      by (auto simp: delete_Node_def split: option.splits)
    have "cells w' = cells w" using w' r n by auto
    moreover have "avail w' = avail w" using w' r n by simp
    moreover have "cmp_changed w w' this"
      using r n w' by (auto simp: cmp_changed_def split: option.splits)
    ultimately show ?thesis using q n Return by (auto simp: cmp_changed_def)
  next
    case (Raise ex1 w1)
    with assms q new_Node_Raise[OF Raise] show ?thesis
      by (auto simp: push_def split: option.splits)
  next
    case Undefined
    with assms q show ?thesis by (simp add: push_def)
  qed
qed


theorem push_failure_restores_witness:
  "case ctor (counting_ops 3) (world0 [1, 2, 3, 4]) 0 of
     Return u w0 \<Rightarrow>
       (case run 10 (counting_ops 3) w0 0 [Push 5, Push 3, Push 8] of
          Some (Return u' w) \<Rightarrow>
            (case push 10 (counting_ops 3) w 0 1 of
               Some (Raise ex w') \<Rightarrow>
                 ex = thrown 7 \<and> cells w' = cells w \<and> avail w' = avail w \<and>
                 map_option root (pqs w' 0) = map_option root (pqs w 0) \<and>
                 map_option queue_size (pqs w' 0) = map_option queue_size (pqs w 0)
             | _ \<Rightarrow> False)
        | _ \<Rightarrow> False)
   | _ \<Rightarrow> False"
proof -
  have c: "case ctor (counting_ops 3) (world0 [1, 2, 3, 4]) 0 of
     Return u w0 \<Rightarrow>
       (case run 10 (counting_ops 3) w0 0 [Push 5, Push 3, Push 8] of
          Some (Return u' w) \<Rightarrow>
            (case push 10 (counting_ops 3) w 0 1 of
               Some (Raise ex w') \<Rightarrow> ex = thrown 7
             | _ \<Rightarrow> False)
        | _ \<Rightarrow> False)
   | _ \<Rightarrow> False"
    by code_simp
  then obtain w0 w w' where
    e: "ctor (counting_ops 3) (world0 [1, 2, 3, 4]) 0 = Return () w0"
       "run 10 (counting_ops 3) w0 0 [Push 5, Push 3, Push 8] = Some (Return () w)"
       "push 10 (counting_ops 3) w 0 1 = Some (Raise (thrown 7) w')"
    by (simp split: outcome.splits option.splits)
  have r: "cells w' = cells w \<and> avail w' = avail w \<and>
           map_option root (pqs w' 0) = map_option root (pqs w 0) \<and>
           map_option queue_size (pqs w' 0) = map_option queue_size (pqs w 0)"
    using push_failure_restores[OF e(3)] by auto
  show ?thesis
    by (simp only: e outcome.case option.case) (simp add: r)
qed


text \<open>
  C5. On an existing object, \<open>top\<close> and \<open>pop\<close> throw \<open>container_is_empty\<close> exactly
  when \<open>queue_size\<close> is 0, and the program state is then untouched. When \<open>pop\<close> throws
  for any reason (so also when the comparator throws inside the merge of the two
  subtrees), the store and the free list are as before the call, every other object is
  untouched, and \<open>root\<close> and the undecremented \<open>queue_size\<close> of the object are as
  before the call.
\<close>

theorem empty_error_and_pop_failure:
  assumes "pqs w this = Some q"
  shows "((\<exists>w'. top w this = Raise container_is_empty w') \<longleftrightarrow> queue_size q = 0) \<and>
         ((\<exists>w'. pop k T w this = Some (Raise container_is_empty w')) \<longleftrightarrow> queue_size q = 0) \<and>
         (\<forall>ex w'. top w this = Raise ex w' \<longrightarrow> w' = w) \<and>
         (\<forall>w'. pop k T w this = Some (Raise container_is_empty w') \<longrightarrow> w' = w) \<and>
         (\<forall>ex w'. pop k T w this = Some (Raise ex w') \<longrightarrow>
            cells w' = cells w \<and> avail w' = avail w \<and>
            (\<forall>c. c \<noteq> this \<longrightarrow> pqs w' c = pqs w c) \<and>
            (\<exists>q'. pqs w' this = Some q' \<and> root q' = root q \<and> queue_size q' = queue_size q))"
proof -
  have t1: "(\<exists>w'. top w this = Raise container_is_empty w') \<longleftrightarrow> queue_size q = 0"
    using assms by (auto simp: top_def split: option.splits)
  have t2: "\<forall>ex w'. top w this = Raise ex w' \<longrightarrow> w' = w"
    using assms by (auto simp: top_def split: option.splits if_splits)
  have p: "cells w' = cells w \<and> avail w' = avail w \<and>
            (\<forall>c. c \<noteq> this \<longrightarrow> pqs w' c = pqs w c) \<and>
            (\<exists>q'. pqs w' this = Some q' \<and> root q' = root q \<and> queue_size q' = queue_size q) \<and>
            (ex = container_is_empty \<longrightarrow> queue_size q = 0 \<and> w' = w)"
    if r: "pop k T w this = Some (Raise ex w')" for ex w'
  proof (cases "queue_size q = 0")
    case True
    with r assms show ?thesis by (simp add: pop_def)
  next
    case False
    with r assms obtain n w1 q1 where
      d: "deref w (root q) = Some n" and
      m: "mergeNodes k T w this (left n) (right n) = Some (Raise ex w1)" and
      q1: "pqs w1 this = Some q1" and
      w': "w' = w1\<lparr>pqs := (pqs w1)(this \<mapsto> q1\<lparr>root := root q\<rparr>)\<rparr>"
      by (auto simp: pop_def split: option.splits outcome.splits)
    from mergeNodes_Raise[OF m] assms q1 have
      "cells w1 = cells w" "avail w1 = avail w" "\<forall>c. c \<noteq> this \<longrightarrow> pqs w1 c = pqs w c"
      "queue_size q1 = queue_size q" "ex \<noteq> container_is_empty"
      by (auto simp: cmp_changed_def)
    then show ?thesis using w' by auto
  qed
  have p0: "queue_size q = 0 \<Longrightarrow> pop k T w this = Some (Raise container_is_empty w)"
    using assms by (simp add: pop_def)
  show ?thesis using t1 t2 p p0 by blast
qed

theorem empty_error_and_pop_failure_witness:
  "case ctor (counting_ops 4) (world0 [1, 2, 3, 4]) 0 of
     Return u w0 \<Rightarrow>
       top w0 0 = Raise container_is_empty w0 \<and>
       pop 10 (counting_ops 4) w0 0 = Some (Raise container_is_empty w0) \<and>
       (case run 10 (counting_ops 4) w0 0 [Push 5, Push 3, Push 8, Push 1] of
          Some (Return u' w) \<Rightarrow>
            (case pop 10 (counting_ops 4) w 0 of
               Some (Raise ex w') \<Rightarrow>
                 ex = thrown 7 \<and> cells w' = cells w \<and> avail w' = avail w \<and>
                 map_option root (pqs w' 0) = map_option root (pqs w 0) \<and>
                 map_option queue_size (pqs w' 0) = map_option queue_size (pqs w 0) \<and>
                 map_option queue_size (pqs w' 0) = Some 4
             | _ \<Rightarrow> False)
        | _ \<Rightarrow> False)
   | _ \<Rightarrow> False"
proof -
  have c: "case ctor (counting_ops 4) (world0 [1, 2, 3, 4]) 0 of
     Return u w0 \<Rightarrow>
       (case pqs w0 0 of Some q \<Rightarrow> queue_size q = 0 | None \<Rightarrow> False) \<and>
       (case run 10 (counting_ops 4) w0 0 [Push 5, Push 3, Push 8, Push 1] of
          Some (Return u' w) \<Rightarrow>
            (case pqs w 0 of Some q \<Rightarrow> queue_size q = 4 | None \<Rightarrow> False) \<and>
            (case pop 10 (counting_ops 4) w 0 of
               Some (Raise ex w') \<Rightarrow> ex = thrown 7
             | _ \<Rightarrow> False)
        | _ \<Rightarrow> False)
   | _ \<Rightarrow> False"
    by code_simp
  then obtain w0 w w' q0 q where
    e: "ctor (counting_ops 4) (world0 [1, 2, 3, 4]) 0 = Return () w0"
       "run 10 (counting_ops 4) w0 0 [Push 5, Push 3, Push 8, Push 1] = Some (Return () w)"
       "pop 10 (counting_ops 4) w 0 = Some (Raise (thrown 7) w')" and
    q: "pqs w0 0 = Some q0" "queue_size q0 = 0" "pqs w 0 = Some q" "queue_size q = 4"
    by (simp split: outcome.splits option.splits)
  have r0: "top w0 0 = Raise container_is_empty w0 \<and>
            pop 10 (counting_ops 4) w0 0 = Some (Raise container_is_empty w0)"
    using empty_error_and_pop_failure[OF q(1), of 10 "counting_ops 4"] q(2) by metis
  have r: "cells w' = cells w \<and> avail w' = avail w \<and>
           map_option root (pqs w' 0) = map_option root (pqs w 0) \<and>
           map_option queue_size (pqs w' 0) = map_option queue_size (pqs w 0) \<and>
           map_option queue_size (pqs w' 0) = Some 4"
    using empty_error_and_pop_failure[OF q(3), of 10 "counting_ops 4"] e(3) q(3,4) by auto
  show ?thesis
    by (simp only: e outcome.case option.case) (simp add: r r0 q)
qed



end
